theory Spec2Isabelle
  imports Complex_Main "HOL-Library.Word" "HOL-Library.AList" "HOL-Library.Log_Nat"
begin

unbundle bit_operations_syntax

section \<open>Data model of \<^verbatim>\<open>main.cpp\<close>\<close>

text \<open>
  \<^verbatim>\<open>using Coord = std::pair<int, int>;\<close>
  A coordinate is a pair of 32-bit machine integers. The words are read as two's
  complement by \<open>sint\<close>; \<open>+\<close> on them wraps modulo \<open>2 ^ 32\<close>.
\<close>

type_synonym Coord = "32 word \<times> 32 word"

text \<open>
  \<^verbatim>\<open>using CellGrid = std::unordered_map<Coord, bool, CoordHash>;\<close>
  \<^verbatim>\<open>using CandidateSet = std::unordered_set<Coord, CoordHash>;\<close>
  A hash container is modelled by the sequence of its entries in the order in which a
  range-for visits them. That order is unspecified in C++, so nothing below depends on
  it: the observations of a grid are \<open>grid_count\<close> (membership) and \<open>map_of\<close> (the
  key/value content, which is what \<^verbatim>\<open>operator==\<close> of the container compares).
\<close>

type_synonym CellGrid = "(Coord \<times> bool) list"
type_synonym CandidateSet = "Coord list"

text \<open>\<^verbatim>\<open>grid.count(c)\<close>: 1 when the key is present, 0 otherwise.\<close>

definition grid_count :: "CellGrid \<Rightarrow> Coord \<Rightarrow> nat" where
  "grid_count grid c = (case map_of grid c of None \<Rightarrow> 0 | Some _ \<Rightarrow> 1)"

text \<open>\<^verbatim>\<open>grid[c] = true\<close> and \<^verbatim>\<open>grid.erase(c)\<close>.\<close>

definition grid_set_true :: "Coord \<Rightarrow> CellGrid \<Rightarrow> CellGrid" where
  "grid_set_true c grid = AList.update c True grid"

definition grid_erase :: "Coord \<Rightarrow> CellGrid \<Rightarrow> CellGrid" where
  "grid_erase c grid = AList.delete c grid"

text \<open>\<^verbatim>\<open>candidates.insert(c)\<close>: no effect when \<open>c\<close> is already a member.\<close>

definition set_insert :: "Coord \<Rightarrow> CandidateSet \<Rightarrow> CandidateSet" where
  "set_insert c cs = (if c \<in> set cs then cs else cs @ [c])"

text \<open>A cell is alive when it is a key of the grid; the live cells are the keys.\<close>

definition alive :: "CellGrid \<Rightarrow> Coord \<Rightarrow> bool" where
  "alive grid c = (grid_count grid c \<noteq> 0)"

definition live_cells :: "CellGrid \<Rightarrow> Coord set" where
  "live_cells grid = fst ` set grid"

section \<open>The step function\<close>

text \<open>The table \<^verbatim>\<open>neighbour_offsets[8]\<close>, the same in both functions that declare it.\<close>

definition neighbour_offsets :: "Coord list" where
  "neighbour_offsets =
     [(-1, -1), (0, -1), (1, -1),
      (-1,  0),          (1,  0),
      (-1,  1), (0,  1), (1,  1)]"

text \<open>\<^verbatim>\<open>{cell.first + offset.first, cell.second + offset.second}\<close>\<close>

definition offset_by :: "Coord \<Rightarrow> Coord \<Rightarrow> Coord" where
  "offset_by cell offset = (fst cell + fst offset, snd cell + snd offset)"

text \<open>
  \<^verbatim>\<open>int count_active_neighbours(const CellGrid& grid, const Coord& cell)\<close>: the loop
  over the eight offsets, with the counter as the accumulator (it never exceeds 8).
\<close>

definition count_active_neighbours :: "CellGrid \<Rightarrow> Coord \<Rightarrow> nat" where
  "count_active_neighbours grid cell =
     fold (\<lambda>offset count.
             let neighbour = offset_by cell offset
             in if grid_count grid neighbour \<noteq> 0 then count + 1 else count)
          neighbour_offsets 0"

text \<open>The first loop of \<^verbatim>\<open>update_grid\<close>: every key of the grid and its eight offsets.\<close>

definition insert_with_neighbours :: "Coord \<Rightarrow> CandidateSet \<Rightarrow> CandidateSet" where
  "insert_with_neighbours coord candidates =
     fold (\<lambda>offset cs. set_insert (offset_by coord offset) cs)
          neighbour_offsets (set_insert coord candidates)"

definition build_candidates :: "CellGrid \<Rightarrow> CandidateSet" where
  "build_candidates grid =
     fold (\<lambda>entry cs. insert_with_neighbours (fst entry) cs) grid []"

text \<open>The body of the second loop, for one candidate.\<close>

definition apply_rule :: "CellGrid \<Rightarrow> Coord \<Rightarrow> CellGrid \<Rightarrow> CellGrid" where
  "apply_rule grid coord new_grid =
     (let neighbours = count_active_neighbours grid coord;
          is_alive = (grid_count grid coord \<noteq> 0)
      in if is_alive then
           (if neighbours = 2 \<or> neighbours = 3 then grid_set_true coord new_grid
            else new_grid)
         else
           (if neighbours = 3 then grid_set_true coord new_grid else new_grid))"

text \<open>
  \<^verbatim>\<open>void update_grid(CellGrid& grid, long long& generation)\<close>: both references are
  returned updated. The generation is a 64-bit machine integer.
\<close>

definition update_grid :: "CellGrid \<Rightarrow> 64 word \<Rightarrow> CellGrid \<times> 64 word" where
  "update_grid grid generation =
     (let candidates = build_candidates grid;
          new_grid = fold (apply_rule grid) candidates []
      in (new_grid, generation + 1))"

section \<open>The coordinate hash\<close>

text \<open>
  \<^verbatim>\<open>struct CoordHash\<close>. \<^verbatim>\<open>std::hash<int>\<close> belongs to the C++ standard library, which
  leaves its values to the implementation, so it is a parameter here; \<^verbatim>\<open>size_t\<close> is
  a word of any width. \<^verbatim>\<open>hash_2 << 1\<close> is \<open>push_bit 1\<close>.
\<close>

definition CoordHash :: "(32 word \<Rightarrow> 'a::len word) \<Rightarrow> Coord \<Rightarrow> 'a word" where
  "CoordHash std_hash p =
     (let hash_1 = std_hash (fst p);
          hash_2 = std_hash (snd p)
      in hash_1 XOR push_bit 1 hash_2)"

text \<open>
  The \<^verbatim>\<open>std::hash<int>\<close> of libstdc++ and of libc++ on a 64-bit target:
  \<^verbatim>\<open>static_cast<size_t>(value)\<close>, the sign-extending conversion.
\<close>

definition cast_hash :: "32 word \<Rightarrow> 64 word" where
  "cast_hash v = scast v"

section \<open>Painting with the mouse\<close>

text \<open>
  The three function-local statics of \<^verbatim>\<open>handle_mouse_interaction\<close>, which survive
  from one call to the next. They start as \<open>stroke_init\<close>.
\<close>

record stroke =
  is_painting :: bool
  paint_mode_is_drawing :: bool
  cells_modified_this_stroke :: CandidateSet

definition stroke_init :: stroke where
  "stroke_init =
     \<lparr>is_painting = False, paint_mode_is_drawing = False, cells_modified_this_stroke = []\<rparr>"

text \<open>
  What one call reads from raylib: \<^verbatim>\<open>IsMouseButtonPressed(MOUSE_BUTTON_LEFT)\<close>,
  \<^verbatim>\<open>IsMouseButtonDown(MOUSE_BUTTON_LEFT)\<close>, \<^verbatim>\<open>IsMouseButtonReleased(MOUSE_BUTTON_LEFT)\<close>,
  \<^verbatim>\<open>IsMouseButtonDown(MOUSE_BUTTON_RIGHT)\<close>, and the cell under the pointer as
  \<^verbatim>\<open>screen_to_world_coord\<close> resolved it.
\<close>

record mouse =
  left_pressed :: bool
  left_down :: bool
  left_released :: bool
  right_down :: bool
  current_cell_coord :: Coord

text \<open>
  \<^verbatim>\<open>void handle_mouse_interaction(CellGrid& grid, ...)\<close>: the grid and the statics go
  in and come out. The branches are in the order of the source; both \<^verbatim>\<open>return\<close>s are
  branches that leave the rest of the state as it is.
\<close>

definition handle_mouse_interaction :: "mouse \<Rightarrow> CellGrid \<times> stroke \<Rightarrow> CellGrid \<times> stroke" where
  "handle_mouse_interaction m s =
     (let grid = fst s; st = snd s; c = current_cell_coord m
      in if left_pressed m then
           (if right_down m then s
            else
              let st1 = st\<lparr>is_painting := True, cells_modified_this_stroke := []\<rparr>;
                  (grid2, st2) =
                    (if grid_count grid c \<noteq> 0
                     then (grid_erase c grid, st1\<lparr>paint_mode_is_drawing := False\<rparr>)
                     else (grid_set_true c grid, st1\<lparr>paint_mode_is_drawing := True\<rparr>))
              in (grid2, st2\<lparr>cells_modified_this_stroke :=
                                set_insert c (cells_modified_this_stroke st2)\<rparr>))
         else if is_painting st \<and> left_down m then
           (if right_down m then (grid, st\<lparr>is_painting := False\<rparr>)
            else if c \<notin> set (cells_modified_this_stroke st) then
              (if paint_mode_is_drawing st
               then (if grid_count grid c = 0 then grid_set_true c grid else grid)
               else (if grid_count grid c \<noteq> 0 then grid_erase c grid else grid),
               st\<lparr>cells_modified_this_stroke :=
                     set_insert c (cells_modified_this_stroke st)\<rparr>)
            else s)
         else if is_painting st \<and> left_released m then (grid, st\<lparr>is_painting := False\<rparr>)
         else if \<not> left_down m \<and> is_painting st then (grid, st\<lparr>is_painting := False\<rparr>)
         else s)"

text \<open>
  The commands of the interaction adapter are calls of the handler with the button
  states of the frame in which the left button goes down, is held, and comes up, the
  right button being up.
\<close>

definition toggle_start :: "Coord \<Rightarrow> CellGrid \<times> stroke \<Rightarrow> CellGrid \<times> stroke" where
  "toggle_start c =
     handle_mouse_interaction
       \<lparr>left_pressed = True, left_down = True, left_released = False, right_down = False,
        current_cell_coord = c\<rparr>"

definition continue_stroke :: "Coord \<Rightarrow> CellGrid \<times> stroke \<Rightarrow> CellGrid \<times> stroke" where
  "continue_stroke c =
     handle_mouse_interaction
       \<lparr>left_pressed = False, left_down = True, left_released = False, right_down = False,
        current_cell_coord = c\<rparr>"

definition end_stroke :: "Coord \<Rightarrow> CellGrid \<times> stroke \<Rightarrow> CellGrid \<times> stroke" where
  "end_stroke c =
     handle_mouse_interaction
       \<lparr>left_pressed = False, left_down = False, left_released = True, right_down = False,
        current_cell_coord = c\<rparr>"

section \<open>Keyboard commands and the initial state\<close>

text \<open>
  A \<^verbatim>\<open>float\<close> holds a rational number (NaN and the infinities do not arise from the
  literals and operations below); a literal denotes the binary32 value nearest to it.
  Comparison of floats is comparison of these rationals. The rounding of a sum or a
  difference to binary32 is the parameter \<open>rnd\<close> of \<open>handle_ui_input\<close>.
\<close>

type_synonym float = rat

definition SCREEN_WIDTH :: int where "SCREEN_WIDTH = 1000"
definition SCREEN_HEIGHT :: int where "SCREEN_HEIGHT = 700"

definition SPEED_ADJUST :: float where
  "SPEED_ADJUST = 13421773 / 2 ^ 28" \<comment> \<open>\<^verbatim>\<open>0.05f\<close>\<close>

definition rate_min :: float where
  "rate_min = 5368709 / 2 ^ 29" \<comment> \<open>\<^verbatim>\<open>0.01f\<close>\<close>

definition rate_max :: float where
  "rate_max = 2" \<comment> \<open>\<^verbatim>\<open>2.0f\<close>\<close>

definition rate_default :: float where
  "rate_default = 13421773 / 2 ^ 26" \<comment> \<open>\<^verbatim>\<open>0.2f\<close>\<close>

text \<open>raylib's \<^verbatim>\<open>Camera2D\<close>, a \<^verbatim>\<open>Vector2\<close> being a pair of floats.\<close>

record Camera2D =
  cam_offset :: "float \<times> float"
  cam_target :: "float \<times> float"
  cam_rotation :: float
  cam_zoom :: float

text \<open>The five references that \<^verbatim>\<open>handle_ui_input\<close> receives, locals of \<^verbatim>\<open>main\<close>.\<close>

record engine =
  paused :: bool
  step_rate :: float
  grid :: CellGrid
  camera :: Camera2D
  generation :: "64 word"

text \<open>\<^verbatim>\<open>IsKeyPressed\<close> of the five keys that the handler asks for.\<close>

record keys =
  KEY_SPACE :: bool
  KEY_S :: bool
  KEY_UP :: bool
  KEY_DOWN :: bool
  KEY_R :: bool

text \<open>
  \<^verbatim>\<open>void handle_ui_input(bool& paused, float& step_rate, CellGrid& grid,
  Camera2D& camera, long long& generation)\<close>: five \<^verbatim>\<open>if\<close> blocks, one after the other.
\<close>

definition handle_ui_input :: "(rat \<Rightarrow> float) \<Rightarrow> keys \<Rightarrow> engine \<Rightarrow> engine" where
  "handle_ui_input rnd k e =
     (let e1 = (if KEY_SPACE k then e\<lparr>paused := \<not> paused e\<rparr> else e);
          e2 = (if KEY_S k
                then (let r = update_grid (grid e1) (generation e1)
                      in e1\<lparr>grid := fst r, generation := snd r\<rparr>)
                else e1);
          e3 = (if KEY_UP k
                then (let r = rnd (step_rate e2 - SPEED_ADJUST)
                      in e2\<lparr>step_rate := (if r < rate_min then rate_min else r)\<rparr>)
                else e2);
          e4 = (if KEY_DOWN k
                then (let r = rnd (step_rate e3 + SPEED_ADJUST)
                      in e3\<lparr>step_rate := (if r > rate_max then rate_max else r)\<rparr>)
                else e3)
      in if KEY_R k
         then e4\<lparr>grid := [], paused := True, generation := 0, step_rate := rate_default,
                 camera := (camera e4)
                   \<lparr>cam_target := (0, 0),
                    cam_offset := (of_int SCREEN_WIDTH / 2, of_int SCREEN_HEIGHT / 2),
                    cam_rotation := 0, cam_zoom := 1\<rparr>\<rparr>
         else e4)"

text \<open>The state that \<^verbatim>\<open>main\<close> constructs before its loop.\<close>

definition initial_engine :: engine where
  "initial_engine =
     \<lparr>paused = True, step_rate = rate_default, grid = [],
      camera = \<lparr>cam_offset = (of_int SCREEN_WIDTH / 2, of_int SCREEN_HEIGHT / 2),
                cam_target = (0, 0), cam_rotation = 0, cam_zoom = 1\<rparr>,
      generation = 0\<rparr>"

section \<open>Binary32 arithmetic\<close>

text \<open>
  The machine's \<^verbatim>\<open>float\<close> addition and subtraction give the exact result rounded to
  binary32 by IEEE 754 round-to-nearest, ties-to-even: a significand of 24 bits, the
  least exponent \<open>- 126\<close>. \<open>binary_exponent x\<close> is the \<open>e\<close> with \<open>2 ^ e \<le> x < 2 ^ (e + 1)\<close>
  and \<open>ulp\<close> the spacing of the binary32 values around \<open>x\<close>. Overflow to infinity is
  outside the rationals; the rates of the program stay below 3.
\<close>

definition pow2 :: "int \<Rightarrow> rat" where
  "pow2 e = (if 0 \<le> e then 2 ^ nat e else 1 / 2 ^ nat (- e))"

definition binary_exponent :: "rat \<Rightarrow> int" where
  "binary_exponent x =
     (let d = bitlen (fst (quotient_of x)) - bitlen (snd (quotient_of x))
      in if pow2 d \<le> x then d else d - 1)"

definition round_half_even :: "rat \<Rightarrow> int" where
  "round_half_even q =
     (let f = \<lfloor>q\<rfloor>; r = q - of_int f
      in if r < 1 / 2 then f else if 1 / 2 < r then f + 1
         else if even f then f else f + 1)"

definition round_binary32 :: "rat \<Rightarrow> rat" where
  "round_binary32 x =
     (if x = 0 then 0
      else let e = max (binary_exponent \<bar>x\<bar>) (- 126);
               ulp = pow2 (e - 23)
           in sgn x * of_int (round_half_even (\<bar>x\<bar> / ulp)) * ulp)"

section \<open>Notions of the specification\<close>

text \<open>
  The Moore neighbourhood of a cell: the eight cells horizontally, vertically and
  diagonally adjacent to it, in the arithmetic of the coordinates.
\<close>

definition moore_neighbours :: "Coord \<Rightarrow> Coord set" where
  "moore_neighbours c =
     {(fst c + dx, snd c + dy) | dx dy.
        dx \<in> {-1, 0, 1} \<and> dy \<in> {-1, 0, 1} \<and> (dx, dy) \<noteq> (0, 0)}"

definition live_neighbours :: "CellGrid \<Rightarrow> Coord \<Rightarrow> nat" where
  "live_neighbours g c = card {d \<in> moore_neighbours c. alive g d}"

text \<open>The test that the second loop of \<open>update_grid\<close> makes on a candidate.\<close>

definition rule_holds :: "CellGrid \<Rightarrow> Coord \<Rightarrow> bool" where
  "rule_holds g c =
     (if grid_count g c \<noteq> 0
      then count_active_neighbours g c = 2 \<or> count_active_neighbours g c = 3
      else count_active_neighbours g c = 3)"

text \<open>One step on the pair of grid and generation, so that steps compose.\<close>

definition advance :: "CellGrid \<times> 64 word \<Rightarrow> CellGrid \<times> 64 word" where
  "advance s = update_grid (fst s) (snd s)"

text \<open>A grid moved by a vector, and the horizontal blinker centred at \<open>(x, y)\<close>.\<close>

definition translate :: "Coord \<Rightarrow> CellGrid \<Rightarrow> CellGrid" where
  "translate d g = map (\<lambda>entry. (offset_by (fst entry) d, snd entry)) g"

definition blinker :: "32 word \<Rightarrow> 32 word \<Rightarrow> CellGrid" where
  "blinker x y = [((x - 1, y), True), ((x, y), True), ((x + 1, y), True)]"

text \<open>The extremes of \<^verbatim>\<open>int\<close>.\<close>

definition INT_MAX :: "32 word" where "INT_MAX = 0x7FFFFFFF"
definition INT_MIN :: "32 word" where "INT_MIN = 0x80000000"

section \<open>Containers and candidates\<close>

lemma alive_iff: "alive g c \<longleftrightarrow> c \<in> live_cells g"
  using map_of_eq_None_iff [of g c]
  by (cases "map_of g c") (simp_all add: alive_def grid_count_def live_cells_def)

lemma alive_map_of: "alive g c \<longleftrightarrow> map_of g c \<noteq> None"
  by (simp add: alive_def grid_count_def split: option.splits)

lemma set_set_insert: "set (set_insert c cs) = insert c (set cs)"
  by (auto simp: set_insert_def)

lemma set_fold_set_insert:
  "set (fold (\<lambda>offset cs. set_insert (f offset) cs) os cs) = f ` set os \<union> set cs"
  by (induction os arbitrary: cs) (auto simp: set_set_insert)

lemma set_insert_with_neighbours:
  "set (insert_with_neighbours c cs) =
     insert c (offset_by c ` set neighbour_offsets) \<union> set cs"
  by (simp add: insert_with_neighbours_def set_fold_set_insert set_set_insert)

lemma set_fold_insert_with_neighbours:
  "set (fold (\<lambda>entry cs. insert_with_neighbours (fst entry) cs) g cs) =
     (\<Union>c \<in> fst ` set g. insert c (offset_by c ` set neighbour_offsets)) \<union> set cs"
  by (induction g arbitrary: cs) (auto simp: set_insert_with_neighbours)

lemma set_build_candidates:
  "set (build_candidates g) =
     (\<Union>c \<in> live_cells g. insert c (offset_by c ` set neighbour_offsets))"
  by (simp add: build_candidates_def set_fold_insert_with_neighbours live_cells_def)

lemma map_of_apply_rule:
  "map_of (apply_rule g c acc) =
     (if rule_holds g c then (map_of acc)(c \<mapsto> True) else map_of acc)"
  by (auto simp: apply_rule_def rule_holds_def Let_def grid_set_true_def update_conv')

lemma map_of_fold_apply_rule:
  "map_of (fold (apply_rule g) cs acc) c =
     (if c \<in> set cs \<and> rule_holds g c then Some True else map_of acc c)"
  by (induction cs arbitrary: acc) (auto simp: map_of_apply_rule)

lemma neighbour_offsets_iff:
  "(dx, dy) \<in> set neighbour_offsets \<longleftrightarrow>
     dx \<in> {-1, 0, 1} \<and> dy \<in> {-1, 0, 1} \<and> (dx, dy) \<noteq> (0, 0)"
  by (auto simp: neighbour_offsets_def)

lemma moore_neighbours_offsets:
  "moore_neighbours c = offset_by c ` set neighbour_offsets"
proof -
  have "moore_neighbours c =
      {(fst c + dx, snd c + dy) | dx dy. (dx, dy) \<in> set neighbour_offsets}"
    unfolding moore_neighbours_def neighbour_offsets_iff ..
  also have "\<dots> = offset_by c ` set neighbour_offsets"
    by (force simp: offset_by_def image_iff)
  finally show ?thesis .
qed

lemma distinct_neighbour_offsets: "distinct neighbour_offsets"
  by (simp add: neighbour_offsets_def)

lemma inj_offset_by: "inj (offset_by c)"
  by (auto simp: inj_on_def offset_by_def)

lemma fold_count_filter:
  "fold (\<lambda>x n. if P x then n + 1 else n) xs (k::nat) = k + length (filter P xs)"
  by (induction xs arbitrary: k) auto

lemma count_active_neighbours_filter:
  "count_active_neighbours g c =
     length (filter (\<lambda>offset. alive g (offset_by c offset)) neighbour_offsets)"
  by (simp add: count_active_neighbours_def Let_def fold_count_filter alive_def)

lemma count_active_neighbours_card:
  "count_active_neighbours g c = live_neighbours g c"
proof -
  let ?P = "\<lambda>offset. alive g (offset_by c offset)"
  have "distinct (map (offset_by c) (filter ?P neighbour_offsets))"
    by (simp add: distinct_map distinct_neighbour_offsets
        inj_on_subset [OF inj_offset_by])
  then have "length (filter ?P neighbour_offsets) =
      card (set (map (offset_by c) (filter ?P neighbour_offsets)))"
    by (metis distinct_card length_map)
  also have "set (map (offset_by c) (filter ?P neighbour_offsets)) =
      {d \<in> moore_neighbours c. alive g d}"
    by (auto simp: moore_neighbours_offsets)
  finally show ?thesis
    by (simp add: count_active_neighbours_filter live_neighbours_def)
qed

text \<open>The neighbourhood of the specification has eight cells, also at the limits.\<close>

lemma card_moore_neighbours: "card (moore_neighbours c) = 8"
proof -
  have "card (offset_by c ` set neighbour_offsets) = card (set neighbour_offsets)"
    by (rule card_image) (rule inj_on_subset [OF inj_offset_by subset_UNIV])
  also have "\<dots> = length neighbour_offsets"
    by (rule distinct_card) (rule distinct_neighbour_offsets)
  finally show ?thesis
    by (simp add: moore_neighbours_offsets neighbour_offsets_def)
qed

lemma offset_negated:
  "offset \<in> set neighbour_offsets \<Longrightarrow> (- fst offset, - snd offset) \<in> set neighbour_offsets"
  by (cases offset) (auto simp: neighbour_offsets_iff)

lemma offset_by_negated:
  "offset_by (offset_by c offset) (- fst offset, - snd offset) = c"
  by (simp add: offset_by_def)

lemma rule_holds_candidate:
  assumes "rule_holds g c"
  shows "c \<in> set (build_candidates g)"
proof -
  from assms have "0 < count_active_neighbours g c"
    by (auto simp: rule_holds_def split: if_splits)
  then have "filter (\<lambda>offset. alive g (offset_by c offset)) neighbour_offsets \<noteq> []"
    by (simp add: count_active_neighbours_filter)
  then obtain offset where o: "offset \<in> set neighbour_offsets" "alive g (offset_by c offset)"
    by (auto simp: filter_empty_conv)
  let ?d = "offset_by c offset"
  from o(2) have "?d \<in> live_cells g"
    by (simp add: alive_iff)
  moreover have "c \<in> offset_by ?d ` set neighbour_offsets"
    using offset_negated [OF o(1)] offset_by_negated [of c offset] by (metis imageI)
  ultimately show ?thesis
    unfolding set_build_candidates by blast
qed

lemma map_of_update_grid:
  "map_of (fst (update_grid g n)) c = (if rule_holds g c then Some True else None)"
  using rule_holds_candidate [of g c]
  by (auto simp: update_grid_def Let_def map_of_fold_apply_rule)


lemma fst_update_grid: "fst (update_grid g n) = fst (update_grid g m)"
  by (simp add: update_grid_def Let_def)

lemma grid_count_live: "grid_count g c = (if c \<in> live_cells g then 1 else 0)"
  using alive_iff [of g c]
  by (cases "map_of g c") (simp_all add: alive_def grid_count_def)

lemma rule_holds_cong:
  assumes "live_cells g = live_cells h"
  shows "rule_holds g c = rule_holds h c"
proof -
  have "grid_count g = grid_count h"
    by (rule ext) (simp add: grid_count_live assms)
  then show ?thesis
    by (simp add: rule_holds_def count_active_neighbours_def)
qed

text \<open>
  The content of the next grid depends on the live cells of the grid only, not on the
  order in which the container holds them.
\<close>

lemma update_grid_cong:
  "live_cells g = live_cells h \<Longrightarrow>
     map_of (fst (update_grid g n)) = map_of (fst (update_grid h m))"
  by (rule ext) (simp add: map_of_update_grid rule_holds_cong [of g h])

lemma live_cells_map_of: "live_cells g = dom (map_of g)"
  by (simp add: live_cells_def dom_map_of_conv_image_fst)

lemma offset_by_commute: "offset_by (offset_by c a) b = offset_by (offset_by c b) a"
  by (simp add: offset_by_def)

lemma offset_by_cancel: "offset_by c d = offset_by c' d \<longleftrightarrow> c = c'"
  by (cases c, cases c') (simp add: offset_by_def)

lemma offset_by_back: "offset_by (offset_by c (- fst d, - snd d)) d = c"
  by (simp add: offset_by_def)

lemma map_of_translate: "map_of (translate d g) (offset_by c d) = map_of g c"
  by (induction g) (simp_all add: translate_def offset_by_cancel)

lemma grid_count_translate: "grid_count (translate d g) (offset_by c d) = grid_count g c"
  by (simp add: grid_count_def map_of_translate)

lemma count_active_neighbours_translate:
  "count_active_neighbours (translate d g) (offset_by c d) = count_active_neighbours g c"
proof -
  have "grid_count (translate d g) (offset_by (offset_by c d) offset) =
      grid_count g (offset_by c offset)" for offset
    using grid_count_translate [of d g "offset_by c offset"]
    by (simp add: offset_by_commute [of c d offset])
  then show ?thesis
    by (simp add: count_active_neighbours_def)
qed

lemma rule_holds_translate: "rule_holds (translate d g) (offset_by c d) = rule_holds g c"
  by (simp add: rule_holds_def grid_count_translate count_active_neighbours_translate)

lemma update_grid_translate:
  "map_of (fst (update_grid (translate d g) n)) = map_of (translate d (fst (update_grid g m)))"
proof
  fix c
  obtain c' where c: "c = offset_by c' d"
    using offset_by_back [of c d] by metis
  show "map_of (fst (update_grid (translate d g) n)) c =
      map_of (translate d (fst (update_grid g m))) c"
    unfolding c by (simp add: map_of_translate map_of_update_grid rule_holds_translate)
qed

lemma blinker_translate: "blinker x y = translate (x, y) (blinker 0 0)"
  by (simp add: blinker_def translate_def offset_by_def)

lemma blinker_origin_step:
  "fst (update_grid (blinker 0 0) 0) = [((0, - 1), True), ((0, 0), True), ((0, 1), True)]"
  by code_simp

lemma blinker_origin_step2:
  "fst (update_grid [((0, - 1), True), ((0, 0), True), ((0, 1), True)] 0) = blinker 0 0"
  by code_simp

lemma blinker_step:
  "map_of (fst (update_grid (blinker x y) n)) =
     map_of (translate (x, y) [((0, - 1), True), ((0, 0), True), ((0, 1), True)])"
  using update_grid_translate [of "(x, y)" "blinker 0 0" n 0]
  by (simp add: blinker_translate [of x y] blinker_origin_step)


section \<open>Properties of the step function\<close>

lemma candidates_moore:
  "set (build_candidates g) = live_cells g \<union> (\<Union>a \<in> live_cells g. moore_neighbours a)"
  by (auto simp: set_build_candidates moore_neighbours_offsets)

lemma alive_update_grid: "alive (fst (update_grid g n)) c = rule_holds g c"
  by (auto simp: alive_map_of map_of_update_grid)

lemma update_grid_payload: "map_of (fst (update_grid g n)) c \<noteq> Some False"
  by (simp add: map_of_update_grid)


text \<open>
  C1. A cell is alive after \<open>update_grid\<close> exactly when it was alive with 2 or 3 live
  Moore neighbours, or dead with exactly 3. The candidates are the live cells together
  with their Moore neighbourhoods, and a cell outside the candidates is dead afterwards.
\<close>

theorem update_grid_rule:
  "(alive (fst (update_grid g n)) c \<longleftrightarrow>
      (alive g c \<and> (live_neighbours g c = 2 \<or> live_neighbours g c = 3)) \<or>
      (\<not> alive g c \<and> live_neighbours g c = 3)) \<and>
   set (build_candidates g) = live_cells g \<union> (\<Union>a \<in> live_cells g. moore_neighbours a) \<and>
   (c \<notin> set (build_candidates g) \<longrightarrow> \<not> alive (fst (update_grid g n)) c)"
proof (intro conjI impI)
  show "alive (fst (update_grid g n)) c \<longleftrightarrow>
      (alive g c \<and> (live_neighbours g c = 2 \<or> live_neighbours g c = 3)) \<or>
      (\<not> alive g c \<and> live_neighbours g c = 3)"
    unfolding alive_update_grid rule_holds_def count_active_neighbours_card
      alive_def [of g c, symmetric]
    by auto
  show "set (build_candidates g) = live_cells g \<union> (\<Union>a \<in> live_cells g. moore_neighbours a)"
    by (rule candidates_moore)
  assume "c \<notin> set (build_candidates g)"
  then show "\<not> alive (fst (update_grid g n)) c"
    using rule_holds_candidate [of g c] by (auto simp: alive_update_grid)
qed

theorem update_grid_rule_witness:
  "(7, 7) \<notin> set (build_candidates (blinker 0 0)) \<and>
   \<not> alive (fst (update_grid (blinker 0 0) 0)) (7, 7) \<and>
   (0, 1) \<in> set (build_candidates (blinker 0 0)) \<and>
   alive (fst (update_grid (blinker 0 0) 0)) (0, 1) \<and>
   live_neighbours (blinker 0 0) (0, 1) = 3"
proof -
  have out: "(7, 7) \<notin> set (build_candidates (blinker 0 0))"
    by code_simp
  have cand: "(0, 1) \<in> set (build_candidates (blinker 0 0))"
    by code_simp
  have born: "alive (fst (update_grid (blinker 0 0) 0)) (0, 1)"
    by code_simp
  have dead: "\<not> alive (blinker 0 0) (0, 1)"
    by code_simp
  from update_grid_rule [of "blinker 0 0" 0 "(7, 7)"] out
  have "\<not> alive (fst (update_grid (blinker 0 0) 0)) (7, 7)"
    by blast
  moreover from update_grid_rule [of "blinker 0 0" 0 "(0, 1)"] born dead
  have "live_neighbours (blinker 0 0) (0, 1) = 3"
    by blast
  ultimately show ?thesis
    using out cand born by blast
qed

text \<open>
  C2. One call of \<open>update_grid\<close> leaves the generation counter at \<open>n + 1\<close>, whatever the
  grid is and in particular for the empty grid. The addition is that of \<^verbatim>\<open>long long\<close>;
  read as a signed number the counter is the integer successor for every \<open>n\<close> below
  the largest value \<open>2 ^ 63 - 1\<close>.
\<close>

theorem update_grid_generation:
  "snd (update_grid g n) = n + 1 \<and>
   snd (update_grid [] n) = n + 1 \<and>
   (sint n \<noteq> 2 ^ 63 - 1 \<longrightarrow> sint (snd (update_grid g n)) = sint n + 1)"
proof -
  have eq: "snd (update_grid g n) = n + 1" for g
    by (simp add: update_grid_def Let_def)
  have "sint (n + 1) = sint n + 1" if "sint n \<noteq> 2 ^ 63 - 1"
  proof -
    have "sint n < 2 ^ 63" "- (2 ^ 63) \<le> sint n"
      using sint_lt [of n] sint_ge [of n] by simp_all
    with that have "sint n + 1 < 2 ^ 63" "- (2 ^ 63) \<le> sint n + 1"
      by simp_all
    then show ?thesis
      by (simp add: signed_take_bit_int_eq_self sint_word_ariths)
  qed
  with eq show ?thesis by simp
qed

theorem update_grid_generation_witness:
  "sint (41 :: 64 word) \<noteq> 2 ^ 63 - 1 \<and>
   sint (snd (update_grid [((0, 0), True)] 41)) = sint (41 :: 64 word) + 1 \<and>
   snd (update_grid [] 0) = 1"
  using update_grid_generation [of "[((0, 0), True)]" 41] update_grid_generation [of "[]" 0]
  by simp

text \<open>
  C3. The horizontal blinker, three live cells in a row centred at any \<open>(x, y)\<close>,
  has period 2: two steps give a grid with the content of the blinker again, one step
  gives a grid whose content differs from it. The content of a grid is its \<open>map_of\<close>.
\<close>

theorem blinker_period_two:
  "map_of (fst (advance (advance (blinker x y, n)))) = map_of (blinker x y) \<and>
   map_of (fst (advance (blinker x y, n))) \<noteq> map_of (blinker x y)"
proof
  let ?V = "[((0, - 1), True), ((0, 0), True), ((0, 1), True)] :: CellGrid"
  let ?g1 = "fst (update_grid (blinker x y) n)"
  have "live_cells ?g1 = live_cells (translate (x, y) ?V)"
    by (simp add: live_cells_map_of blinker_step)
  then have "map_of (fst (update_grid ?g1 (n + 1))) =
      map_of (fst (update_grid (translate (x, y) ?V) 0))"
    by (rule update_grid_cong)
  also have "\<dots> = map_of (translate (x, y) (fst (update_grid ?V 0)))"
    by (rule update_grid_translate)
  also have "\<dots> = map_of (blinker x y)"
    by (simp add: blinker_origin_step2 blinker_translate [of x y])
  finally show "map_of (fst (advance (advance (blinker x y, n)))) = map_of (blinker x y)"
    by (simp add: advance_def update_grid_def Let_def)
  have "map_of (translate (x, y) ?V) (x, y + 1) = Some True"
    by (simp add: translate_def offset_by_def)
  moreover have "map_of (blinker x y) (x, y + 1) = None"
    by (simp add: blinker_def)
  ultimately show "map_of (fst (advance (blinker x y, n))) \<noteq> map_of (blinker x y)"
    by (metis advance_def blinker_step fst_conv option.distinct(1))
qed

lemma seam_born_origin:
  "rule_holds [((INT_MAX, - 1), True), ((INT_MAX, 0), True), ((INT_MAX, 1), True)] (INT_MIN, 0)"
  by code_simp

lemma seam_count_origin:
  "count_active_neighbours [((INT_MIN, 0), True)] (INT_MAX, 0) = 1"
  "count_active_neighbours [((0, INT_MIN), True)] (0, INT_MAX) = 1"
  "count_active_neighbours [((INT_MAX, 0), True)] (INT_MIN, 0) = 1"
  "count_active_neighbours [((0, INT_MAX), True)] (0, INT_MIN) = 1"
  by code_simp+

text \<open>
  C10. Coordinates are 32-bit machine integers and the offsets are added modulo
  \<open>2 ^ 32\<close>: the right-hand neighbour of a cell in column \<open>INT_MAX\<close> lies in column
  \<open>INT_MIN\<close> and the left-hand neighbour of a cell in column \<open>INT_MIN\<close> in column
  \<open>INT_MAX\<close>, and likewise for rows, both when the candidates are collected and when
  neighbours are counted. Three live cells in column \<open>INT_MAX\<close> give birth to a cell in
  column \<open>INT_MIN\<close>: the plane closes on itself at the limits of \<^verbatim>\<open>int\<close>.
\<close>

theorem coordinates_wrap:
  "sint INT_MAX = 2 ^ 31 - 1 \<and> sint INT_MIN = - (2 ^ 31) \<and>
   offset_by (INT_MAX, y) (1, 0) = (INT_MIN, y) \<and>
   offset_by (INT_MIN, y) (- 1, 0) = (INT_MAX, y) \<and>
   offset_by (x, INT_MAX) (0, 1) = (x, INT_MIN) \<and>
   offset_by (x, INT_MIN) (0, - 1) = (x, INT_MAX) \<and>
   (INT_MIN, y) \<in> set (build_candidates [((INT_MAX, y), True)]) \<and>
   (x, INT_MIN) \<in> set (build_candidates [((x, INT_MAX), True)]) \<and>
   count_active_neighbours [((INT_MIN, y), True)] (INT_MAX, y) = 1 \<and>
   count_active_neighbours [((x, INT_MIN), True)] (x, INT_MAX) = 1 \<and>
   (INT_MAX, y) \<in> set (build_candidates [((INT_MIN, y), True)]) \<and>
   (x, INT_MAX) \<in> set (build_candidates [((x, INT_MIN), True)]) \<and>
   count_active_neighbours [((INT_MAX, y), True)] (INT_MIN, y) = 1 \<and>
   count_active_neighbours [((x, INT_MAX), True)] (x, INT_MIN) = 1 \<and>
   alive (fst (update_grid
     [((INT_MAX, y - 1), True), ((INT_MAX, y), True), ((INT_MAX, y + 1), True)] n))
     (INT_MIN, y)"
proof -
  have a: "sint INT_MAX = 2 ^ 31 - 1" "sint INT_MIN = - (2 ^ 31)"
    by (simp_all add: INT_MAX_def INT_MIN_def)
  have b: "offset_by (INT_MAX, y) (1, 0) = (INT_MIN, y)"
    "offset_by (INT_MIN, y) (- 1, 0) = (INT_MAX, y)"
    "offset_by (x, INT_MAX) (0, 1) = (x, INT_MIN)"
    "offset_by (x, INT_MIN) (0, - 1) = (x, INT_MAX)"
    by (simp_all add: offset_by_def INT_MAX_def INT_MIN_def)
  have c: "(INT_MIN, y) \<in> set (build_candidates [((INT_MAX, y), True)])"
    "(x, INT_MIN) \<in> set (build_candidates [((x, INT_MAX), True)])"
    unfolding set_build_candidates live_cells_def
    using b(1) b(3) by (force simp: neighbour_offsets_def)+
  have d1: "count_active_neighbours [((INT_MIN, y), True)] (INT_MAX, y) = 1"
    using count_active_neighbours_translate [of "(0, y)" "[((INT_MIN, 0), True)]" "(INT_MAX, 0)"]
    by (simp add: translate_def offset_by_def seam_count_origin)
  have d2: "count_active_neighbours [((x, INT_MIN), True)] (x, INT_MAX) = 1"
    using count_active_neighbours_translate [of "(x, 0)" "[((0, INT_MIN), True)]" "(0, INT_MAX)"]
    by (simp add: translate_def offset_by_def seam_count_origin)
  have c': "(INT_MAX, y) \<in> set (build_candidates [((INT_MIN, y), True)])"
    "(x, INT_MAX) \<in> set (build_candidates [((x, INT_MIN), True)])"
    unfolding set_build_candidates live_cells_def
    using b(2) b(4) by (force simp: neighbour_offsets_def)+
  have d3: "count_active_neighbours [((INT_MAX, y), True)] (INT_MIN, y) = 1"
    using count_active_neighbours_translate [of "(0, y)" "[((INT_MAX, 0), True)]" "(INT_MIN, 0)"]
    by (simp add: translate_def offset_by_def seam_count_origin)
  have d4: "count_active_neighbours [((x, INT_MAX), True)] (x, INT_MIN) = 1"
    using count_active_neighbours_translate [of "(x, 0)" "[((0, INT_MAX), True)]" "(0, INT_MIN)"]
    by (simp add: translate_def offset_by_def seam_count_origin)
  let ?O = "[((INT_MAX, - 1), True), ((INT_MAX, 0), True), ((INT_MAX, 1), True)] :: CellGrid"
  let ?G = "[((INT_MAX, y - 1), True), ((INT_MAX, y), True), ((INT_MAX, y + 1), True)] :: CellGrid"
  have g: "translate (0, y) ?O = ?G"
    by (simp add: translate_def offset_by_def)
  have p: "offset_by (INT_MIN, 0) (0, y) = (INT_MIN, y)"
    by (simp add: offset_by_def)
  have "rule_holds (translate (0, y) ?O) (offset_by (INT_MIN, 0) (0, y))"
    by (simp only: rule_holds_translate seam_born_origin)
  then have "rule_holds ?G (INT_MIN, y)"
    by (simp only: g p)
  then have e: "alive (fst (update_grid ?G n)) (INT_MIN, y)"
    by (simp add: alive_update_grid)
  from a b c d1 d2 c' d3 d4 e show ?thesis by blast
qed

section \<open>Properties of painting\<close>

lemma set_insert_member: "c \<in> set (set_insert c cs)"
  by (simp add: set_insert_def)

lemma continue_stroke_touched:
  "c \<in> set (cells_modified_this_stroke (snd s)) \<Longrightarrow> continue_stroke c s = s"
  by (cases s) (simp add: continue_stroke_def handle_mouse_interaction_def Let_def)

lemma continue_stroke_marks:
  "is_painting (snd s) \<Longrightarrow>
     c \<in> set (cells_modified_this_stroke (snd (continue_stroke c s))) \<and>
     is_painting (snd (continue_stroke c s))"
  by (cases s)
    (simp add: continue_stroke_def handle_mouse_interaction_def Let_def set_insert_member)

lemma continue_stroke_idle: "\<not> is_painting (snd s) \<Longrightarrow> continue_stroke c s = s"
  by (cases s) (simp add: continue_stroke_def handle_mouse_interaction_def Let_def)

lemma handle_mouse_interaction_payload:
  assumes "\<And>c. map_of (fst s) c \<noteq> Some False"
  shows "map_of (fst (handle_mouse_interaction m s)) c \<noteq> Some False"
  using assms
  by (cases s)
    (auto simp: handle_mouse_interaction_def Let_def grid_set_true_def grid_erase_def
      update_conv' delete_conv' split: if_splits)

lemma handle_mouse_interaction_idempotent:
  "\<not> left_pressed m \<Longrightarrow>
     handle_mouse_interaction m (handle_mouse_interaction m s) = handle_mouse_interaction m s"
  by (cases s)
    (auto simp: handle_mouse_interaction_def Let_def set_insert_def split: if_splits)

text \<open>
  C4. \<open>continue_stroke\<close> is idempotent: for every grid and every state of the stroke
  (painting or not, either mode, any touched set), a second call with the same cell
  returns the grid and the stroke state of the first. A cell that the stroke has
  touched is not changed again.
\<close>

theorem continue_stroke_idempotent:
  "continue_stroke c (continue_stroke c s) = continue_stroke c s \<and>
   (c \<in> set (cells_modified_this_stroke (snd s)) \<longrightarrow> continue_stroke c s = s)"
proof (intro conjI impI)
  show "continue_stroke c (continue_stroke c s) = continue_stroke c s"
  proof (cases "is_painting (snd s)")
    case True
    then show ?thesis
      using continue_stroke_marks [of s c] continue_stroke_touched by blast
  next
    case False
    then show ?thesis
      by (simp add: continue_stroke_idle)
  qed
next
  assume "c \<in> set (cells_modified_this_stroke (snd s))"
  then show "continue_stroke c s = s"
    by (rule continue_stroke_touched)
qed

lemma toggle_start_eq:
  "toggle_start c (g, st) =
     (if grid_count g c \<noteq> 0 then grid_erase c g else grid_set_true c g,
      \<lparr>is_painting = True, paint_mode_is_drawing = (grid_count g c = 0),
       cells_modified_this_stroke = [c]\<rparr>)"
  by (simp add: toggle_start_def handle_mouse_interaction_def Let_def set_insert_def)

lemma end_stroke_grid: "fst (end_stroke c s) = fst s"
  by (cases s) (simp add: end_stroke_def handle_mouse_interaction_def Let_def)

lemma end_stroke_idle: "\<not> is_painting (snd (end_stroke c s))"
  by (cases s) (simp add: end_stroke_def handle_mouse_interaction_def Let_def)

lemma map_of_toggle_start:
  "map_of (fst (toggle_start c (g, st))) =
     (if map_of g c = None then (map_of g)(c \<mapsto> True) else (map_of g)(c := None))"
  by (cases "map_of g c")
    (simp_all add: toggle_start_eq grid_count_def grid_erase_def grid_set_true_def
      update_conv' delete_conv')


theorem continue_stroke_idempotent_witness:
  "(0, 0) \<in> set (cells_modified_this_stroke (snd ([((0, 0), True)],
      \<lparr>is_painting = True, paint_mode_is_drawing = True,
       cells_modified_this_stroke = [(0, 0)]\<rparr>))) \<and>
   continue_stroke (0, 0)
     ([((0, 0), True)],
      \<lparr>is_painting = True, paint_mode_is_drawing = True,
       cells_modified_this_stroke = [(0, 0)]\<rparr>) =
     ([((0, 0), True)],
      \<lparr>is_painting = True, paint_mode_is_drawing = True,
       cells_modified_this_stroke = [(0, 0)]\<rparr>) \<and>
   continue_stroke (1, 0)
     ([((0, 0), True)],
      \<lparr>is_painting = True, paint_mode_is_drawing = True,
       cells_modified_this_stroke = [(0, 0)]\<rparr>) =
     ([((0, 0), True), ((1, 0), True)],
      \<lparr>is_painting = True, paint_mode_is_drawing = True,
       cells_modified_this_stroke = [(0, 0), (1, 0)]\<rparr>) \<and>
   continue_stroke (1, 0) (continue_stroke (1, 0)
     ([((0, 0), True)],
      \<lparr>is_painting = True, paint_mode_is_drawing = True,
       cells_modified_this_stroke = [(0, 0)]\<rparr>)) =
     ([((0, 0), True), ((1, 0), True)],
      \<lparr>is_painting = True, paint_mode_is_drawing = True,
       cells_modified_this_stroke = [(0, 0), (1, 0)]\<rparr>)"
proof -
  let ?s = "([((0, 0), True)],
      \<lparr>is_painting = True, paint_mode_is_drawing = True,
       cells_modified_this_stroke = [(0, 0)]\<rparr>) :: CellGrid \<times> stroke"
  have once: "continue_stroke (1, 0) ?s =
     ([((0, 0), True), ((1, 0), True)],
      \<lparr>is_painting = True, paint_mode_is_drawing = True,
       cells_modified_this_stroke = [(0, 0), (1, 0)]\<rparr>)"
    by (simp add: continue_stroke_def handle_mouse_interaction_def Let_def set_insert_def
        grid_count_def grid_set_true_def)
  from continue_stroke_idempotent [of "(0, 0)" ?s] continue_stroke_idempotent [of "(1, 0)" ?s]
    once
  show ?thesis by simp
qed

text \<open>
  C5. \<open>toggle_start\<close> on a live cell removes it and on a dead cell adds it; after
  \<open>end_stroke\<close>, a second \<open>toggle_start\<close> on the same cell gives back the live cells of
  the grid it started from, and its whole content when the payload of the cell was not
  \<^verbatim>\<open>false\<close> (the program only ever stores \<^verbatim>\<open>true\<close>).
\<close>

theorem toggle_start_inverse:
  "(alive g c \<longrightarrow> \<not> alive (fst (toggle_start c (g, st))) c) \<and>
   (\<not> alive g c \<longrightarrow> alive (fst (toggle_start c (g, st))) c) \<and>
   live_cells (fst (toggle_start c (end_stroke c' (toggle_start c (g, st))))) = live_cells g \<and>
   (map_of g c \<noteq> Some False \<longrightarrow>
      map_of (fst (toggle_start c (end_stroke c' (toggle_start c (g, st))))) = map_of g)"
proof -
  let ?s1 = "toggle_start c (g, st)"
  let ?s2 = "end_stroke c' ?s1"
  let ?s3 = "toggle_start c ?s2"
  have m1: "map_of (fst ?s1) =
      (if map_of g c = None then (map_of g)(c \<mapsto> True) else (map_of g)(c := None))"
    by (rule map_of_toggle_start)
  have "?s2 = (fst ?s1, snd ?s2)"
    by (metis end_stroke_grid prod.collapse)
  then have "map_of (fst ?s3) =
      (if map_of (fst ?s1) c = None then (map_of (fst ?s1))(c \<mapsto> True)
       else (map_of (fst ?s1))(c := None))"
    by (metis map_of_toggle_start)
  with m1 have m3: "map_of (fst ?s3) =
      (if map_of g c = None then map_of g else (map_of g)(c \<mapsto> True))"
    by (auto simp: fun_upd_idem)
  have a: "alive g c \<longrightarrow> \<not> alive (fst ?s1) c" "\<not> alive g c \<longrightarrow> alive (fst ?s1) c"
    by (simp_all add: alive_map_of m1)
  have "dom (map_of (fst ?s3)) = dom (map_of g)"
    unfolding m3 by auto
  then have b: "live_cells (fst ?s3) = live_cells g"
    by (simp add: live_cells_map_of)
  have c: "map_of g c \<noteq> Some False \<longrightarrow> map_of (fst ?s3) = map_of g"
    unfolding m3 by (cases "map_of g c") (auto simp: fun_upd_idem)
  from a b c show ?thesis by blast
qed

theorem toggle_start_inverse_witness:
  "alive [((0, 0), True)] (0, 0) \<and>
   \<not> alive (fst (toggle_start (0, 0) ([((0, 0), True)], stroke_init))) (0, 0) \<and>
   \<not> alive [((0, 0), True)] (1, 0) \<and>
   alive (fst (toggle_start (1, 0) ([((0, 0), True)], stroke_init))) (1, 0) \<and>
   map_of [((0, 0), True)] (0 :: 32 word, 0 :: 32 word) \<noteq> Some False \<and>
   map_of (fst (toggle_start (0, 0) (end_stroke (5, 5)
     (toggle_start (0, 0) ([((0, 0), True)], stroke_init))))) = map_of [((0, 0), True)]"
proof -
  have h1: "alive [((0, 0), True)] (0, 0)"
    by (simp add: alive_def grid_count_def)
  have h2: "\<not> alive [((0, 0), True)] (1, 0)"
    by (simp add: alive_def grid_count_def)
  have h3: "map_of [((0, 0), True)] (0 :: 32 word, 0 :: 32 word) \<noteq> Some False"
    by simp
  from h1 h3 toggle_start_inverse [of "[((0, 0), True)]" "(0, 0)" stroke_init "(5, 5)"]
    h2 toggle_start_inverse [of "[((0, 0), True)]" "(1, 0)" stroke_init "(5, 5)"]
  show ?thesis by blast
qed

text \<open>
  C8. The claim that \<open>toggle_start\<close> begins no new stroke while one is in progress
  fails on the handler: in a draw stroke that has touched \<open>(0, 0)\<close> and \<open>(1, 0)\<close>, a
  press on \<open>(0, 0)\<close> erases that cell, turns the stroke into an erase stroke and resets
  the touched set to \<open>(0, 0)\<close> alone.
\<close>

theorem nested_toggle_start_counterexample:
  "is_painting (snd ([((0, 0), True), ((1, 0), True)],
      \<lparr>is_painting = True, paint_mode_is_drawing = True,
       cells_modified_this_stroke = [(0, 0), (1, 0)]\<rparr>)) \<and>
   toggle_start (0, 0)
     ([((0, 0), True), ((1, 0), True)],
      \<lparr>is_painting = True, paint_mode_is_drawing = True,
       cells_modified_this_stroke = [(0, 0), (1, 0)]\<rparr>) =
     ([((1, 0), True)],
      \<lparr>is_painting = True, paint_mode_is_drawing = False,
       cells_modified_this_stroke = [(0, 0)]\<rparr>) \<and>
   toggle_start (0, 0)
     ([((0, 0), True), ((1, 0), True)],
      \<lparr>is_painting = True, paint_mode_is_drawing = True,
       cells_modified_this_stroke = [(0, 0), (1, 0)]\<rparr>) \<noteq>
     ([((0, 0), True), ((1, 0), True)],
      \<lparr>is_painting = True, paint_mode_is_drawing = True,
       cells_modified_this_stroke = [(0, 0), (1, 0)]\<rparr>)"
  by (simp add: toggle_start_eq grid_count_def grid_erase_def AList.delete_eq)

text \<open>
  C8, as the handler has it. \<open>toggle_start\<close> does not look at the stroke state: it does
  in a stroke what it does from the idle state. The stroke is (re)started with the
  pressed cell as the only touched cell, the mode is drawing exactly when the cell was
  dead, and the cell is toggled.
\<close>

theorem toggle_start_restarts:
  "toggle_start c (g, st) = toggle_start c (g, stroke_init) \<and>
   is_painting (snd (toggle_start c (g, st))) \<and>
   cells_modified_this_stroke (snd (toggle_start c (g, st))) = [c] \<and>
   paint_mode_is_drawing (snd (toggle_start c (g, st))) = (\<not> alive g c) \<and>
   alive (fst (toggle_start c (g, st))) c = (\<not> alive g c)"
proof -
  have "alive (fst (toggle_start c (g, st))) c = (\<not> alive g c)"
    by (auto simp: alive_map_of map_of_toggle_start)
  then show ?thesis
    by (simp add: toggle_start_eq alive_def)
qed

section \<open>Keyboard commands\<close>

text \<open>The exponent brackets its argument, and the rounding of a quotient is nearest.\<close>

lemma pow2_powi: "pow2 e = 2 powi e"
  by (simp add: pow2_def power_int_def power_one_over inverse_eq_divide)

lemma of_int_bitlen_bounds:
  assumes "0 < (p :: int)"
  shows "(2 :: rat) powi (bitlen p - 1) \<le> of_int p \<and> (of_int p :: rat) < 2 powi bitlen p"
proof -
  from assms have b: "2 ^ nat (bitlen p - 1) \<le> p" "p < 2 ^ nat (bitlen p)"
    using bitlen_bounds [of p] by simp_all
  from assms have "1 \<le> bitlen p"
    by (auto simp: bitlen_alt_def)
  then have e: "(2 :: rat) powi (bitlen p - 1) = of_int (2 ^ nat (bitlen p - 1))"
    "(2 :: rat) powi bitlen p = of_int (2 ^ nat (bitlen p))"
    by (simp_all add: power_int_def)
  show ?thesis
    unfolding e using b by (simp only: of_int_le_iff of_int_less_iff)
qed

lemma binary_exponent_bounds:
  assumes "0 < x"
  shows "pow2 (binary_exponent x) \<le> x \<and> x < pow2 (binary_exponent x + 1)"
proof -
  obtain p q where pq: "quotient_of x = (p, q)"
    by (cases "quotient_of x")
  then have q: "0 < q" and x: "x = of_int p / of_int q"
    by (simp_all add: quotient_of_denom_pos quotient_of_div)
  from assms q x have p: "0 < p"
    by (simp add: zero_less_divide_iff)
  let ?d = "bitlen p - bitlen q"
  note bp = of_int_bitlen_bounds [OF p] and bq = of_int_bitlen_bounds [OF q]
  have qpos: "(0 :: rat) < of_int q"
    using q by simp
  have "x < 2 powi bitlen p / 2 powi (bitlen q - 1)"
    unfolding x using bp bq p
    by (intro frac_less) simp_all
  also have "\<dots> = 2 powi (bitlen p - (bitlen q - 1))"
    by (rule power_int_diff [symmetric]) simp
  also have "bitlen p - (bitlen q - 1) = ?d + 1"
    by simp
  finally have up: "x < pow2 (?d + 1)"
    by (simp only: pow2_powi)
  have "2 powi (bitlen p - 1) / 2 powi bitlen q \<le> x"
    unfolding x using bp bq qpos p
    by (intro frac_le) simp_all
  moreover have "(2 :: rat) powi (bitlen p - 1) / 2 powi bitlen q =
      2 powi (bitlen p - 1 - bitlen q)"
    by (rule power_int_diff [symmetric]) simp
  moreover have "bitlen p - 1 - bitlen q = ?d - 1"
    by simp
  ultimately have low: "pow2 (?d - 1) \<le> x"
    by (simp only: pow2_powi)
  show ?thesis
  proof (cases "pow2 ?d \<le> x")
    case True
    then have "binary_exponent x = ?d"
      by (simp add: binary_exponent_def pq)
    with True up show ?thesis by simp
  next
    case False
    then have "binary_exponent x = ?d - 1"
      by (simp add: binary_exponent_def pq)
    with False low show ?thesis by simp
  qed
qed

lemma round_half_even_nearest: "\<bar>of_int (round_half_even q) - q\<bar> \<le> 1 / 2"
proof -
  have "of_int \<lfloor>q\<rfloor> \<le> q" "q < of_int \<lfloor>q\<rfloor> + 1"
    by linarith+
  then show ?thesis
    by (auto simp: round_half_even_def Let_def)
qed

text \<open>The literals of the source are the binary32 values nearest to their decimals.\<close>

lemma binary32_literals:
  "round_binary32 (1 / 5) = rate_default"
  "round_binary32 (1 / 20) = SPEED_ADJUST"
  "round_binary32 (1 / 100) = rate_min"
  "round_binary32 2 = rate_max"
  by code_simp+






text \<open>
  C7. A call of \<open>handle_ui_input\<close> in which the R key is pressed leaves the state that
  \<open>main\<close> constructs: empty grid, generation 0, the default rate, paused (and the
  initial camera), whatever the state was and whichever other keys are pressed in the
  same call.
\<close>

theorem reset_is_initial:
  "handle_ui_input rnd (k\<lparr>KEY_R := True\<rparr>) e = initial_engine \<and>
   grid initial_engine = [] \<and> generation initial_engine = 0 \<and>
   step_rate initial_engine = rate_default \<and> paused initial_engine"
  by (cases e, cases "camera e") (simp add: handle_ui_input_def initial_engine_def Let_def)

section \<open>Properties of the coordinate hash\<close>

lemma push_bit_fixed:
  fixes d :: "'a::len word"
  assumes "d = push_bit 1 d"
  shows "d = 0"
proof (rule bit_eqI)
  fix n
  have "\<not> bit d n"
  proof (induction n)
    case 0
    have "\<not> bit (push_bit 1 d) 0"
      unfolding bit_push_bit_iff by simp
    with assms show ?case by simp
  next
    case (Suc n)
    have "bit (push_bit 1 d) (Suc n) \<longrightarrow> bit d n"
      unfolding bit_push_bit_iff by simp
    with assms Suc show ?case by metis
  qed
  then show "bit d n \<longleftrightarrow> bit (0 :: 'a word) n"
    by simp
qed

text \<open>
  C9, as the code has it. The hashes of \<open>(a, b)\<close> and \<open>(b, a)\<close> are equal exactly when
  \<^verbatim>\<open>std::hash<int>\<close> gives \<open>a\<close> and \<open>b\<close> the same value: the shift by one bit breaks the
  symmetry of XOR. With an injective \<^verbatim>\<open>std::hash<int>\<close>, swapped pairs of different
  coordinates never collide.
\<close>

theorem CoordHash_swapped:
  "CoordHash std_hash (a, b) = CoordHash std_hash (b, a) \<longleftrightarrow> std_hash a = std_hash b"
proof
  assume eq: "CoordHash std_hash (a, b) = CoordHash std_hash (b, a)"
  let ?d = "std_hash a XOR std_hash b"
  from eq have "std_hash a XOR push_bit 1 (std_hash b) = std_hash b XOR push_bit 1 (std_hash a)"
    by (simp add: CoordHash_def)
  then have "?d = push_bit 1 (std_hash a) XOR push_bit 1 (std_hash b)"
    by (metis (no_types, opaque_lifting) xor.assoc xor.commute xor_self_eq xor.right_neutral)
  then have "?d = push_bit 1 ?d"
    unfolding push_bit_xor .
  then have "?d = 0"
    by (rule push_bit_fixed)
  then show "std_hash a = std_hash b"
    by (metis xor.assoc xor_self_eq xor.right_neutral xor.left_neutral)
next
  assume "std_hash a = std_hash b"
  then show "CoordHash std_hash (a, b) = CoordHash std_hash (b, a)"
    by (simp add: CoordHash_def)
qed

text \<open>
  C9. The claim that swapped pairs collide fails for \<open>(1, 0)\<close> and \<open>(0, 1)\<close> under the
  identity \<^verbatim>\<open>std::hash<int>\<close>: the hashes are 1 and 2.
\<close>

theorem CoordHash_swapped_counterexample:
  "(1 :: 32 word) \<noteq> 0 \<and>
   CoordHash cast_hash (1, 0) = 1 \<and> CoordHash cast_hash (0, 1) = 2 \<and>
   CoordHash cast_hash (1, 0) \<noteq> CoordHash cast_hash (0, 1)"
  by (simp add: CoordHash_def cast_hash_def)

end
